theory Spec2Isabelle
  imports Main
begin

section \<open>Data model (src/src/App.tsx, lines 14-28)\<close>

text \<open>
  A \<open>TodoItem\<close> (imported from \<open>./types/todo\<close>) has the fields the handlers build at
  lines 217-223: \<open>id\<close>, \<open>title\<close>, \<open>completed\<close>, \<open>level\<close> and \<open>isEmpty\<close>. The field
  \<open>id\<close> is written \<open>item_id\<close> here (and \<open>list_id\<close> for a list), since \<open>id\<close> is the
  identity function of HOL.
\<close>

record TodoItem =
  item_id :: string
  title :: string
  completed :: bool
  level :: int
  isEmpty :: bool

record TodoList =
  list_id :: string
  name :: string
  todos :: "TodoItem list"

text \<open>
  \<open>Partial<TodoItem>\<close>: every field may be absent (\<open>None\<close>). The object spread
  \<open>{ ...todo, ...updates }\<close> of line 236 takes each field from \<open>updates\<close> where it is
  present and from \<open>todo\<close> otherwise; the field \<open>id\<close> is no exception.
\<close>

record Updates =
  u_id :: "string option"
  u_title :: "string option"
  u_completed :: "bool option"
  u_level :: "int option"
  u_isEmpty :: "bool option"

definition spread :: "TodoItem \<Rightarrow> Updates \<Rightarrow> TodoItem" where
  "spread todo updates =
     \<lparr>item_id = (case u_id updates of None \<Rightarrow> item_id todo | Some v \<Rightarrow> v),
      title = (case u_title updates of None \<Rightarrow> title todo | Some v \<Rightarrow> v),
      completed = (case u_completed updates of None \<Rightarrow> completed todo | Some v \<Rightarrow> v),
      level = (case u_level updates of None \<Rightarrow> level todo | Some v \<Rightarrow> v),
      isEmpty = (case u_isEmpty updates of None \<Rightarrow> isEmpty todo | Some v \<Rightarrow> v)\<rparr>"

text \<open>
  What the hooks of lines 21-22 give a render: \<open>isSignedIn\<close> (an undefined value is
  falsy, hence \<open>False\<close>), the id of \<open>user\<close> when there is one, whether the \<open>supabase\<close>
  client is defined, and \<open>uuidv4\<close>, whose successive results are \<open>uuidv4 env 0\<close>,
  \<open>uuidv4 env 1\<close>, ...
\<close>

record env =
  isSignedIn :: bool
  user :: "string option"
  supabase :: bool
  uuidv4 :: "nat \<Rightarrow> string"

text \<open>
  The four \<open>useState\<close> cells of lines 25-28. The field \<open>lists\<close> is written \<open>lists_st\<close>
  (\<open>lists\<close> is a constant of HOL).

  A function of the component reads the cells through the constants of the render that
  created it: the closure. Every function below therefore takes two values of this type:
  \<open>r\<close>, the cells as the render of the closure saw them, and \<open>s\<close>, the cells when the
  function runs. A setter called with a value (\<open>setLists(updatedLists)\<close>) overwrites the
  cell of \<open>s\<close>; a setter called with a function (\<open>setLists(prev => ...)\<close>) applies it to
  the cell of \<open>s\<close>. A handler that the user triggers from the screen runs in the closure
  of the latest render, where \<open>r = s\<close>.
\<close>

record state =
  lists_st :: "TodoList list"
  activeListId :: string
  isInitialized :: bool
  isCreatingList :: bool

text \<open>
  What the functions do to the outside: the calls of \<open>syncList\<close> and the requests sent
  to the remote table \<open>todo_lists\<close> (the time stamps of the rows are left out).
\<close>

datatype event =
    SyncListCall string "TodoItem list"
  | SelectLists "string option"
  | InsertList TodoList "string option"
  | DeleteRow string
  | UpdateTodos string "TodoItem list"
  | UpdateName string string

fun is_remote :: "event \<Rightarrow> bool" where
  "is_remote (SyncListCall listId updatedTodos) = False"
| "is_remote e = True"

definition remote_calls :: "event list \<Rightarrow> event list" where
  "remote_calls tr = filter is_remote tr"

section \<open>The active list (lines 213-214)\<close>

definition activeList :: "state \<Rightarrow> TodoList option" where
  "activeList r = find (\<lambda>list. list_id list = activeListId r) (lists_st r)"

definition activeTodos :: "state \<Rightarrow> TodoItem list" where
  "activeTodos r = (case activeList r of None \<Rightarrow> [] | Some list \<Rightarrow> todos list)"

section \<open>syncList (lines 115-131)\<close>

text \<open>
  The reply to the update is only logged, so the model records the request alone. The
  trace starts with the call itself, which is made whatever the guard of line 116 says.
\<close>

definition syncList :: "env \<Rightarrow> string \<Rightarrow> TodoItem list \<Rightarrow> event list" where
  "syncList env listId updatedTodos =
     SyncListCall listId updatedTodos #
     (if \<not> isSignedIn env \<or> \<not> supabase env then []
      else [UpdateTodos listId updatedTodos])"

section \<open>The todo handlers (lines 216-274)\<close>

definition handleCreateTodo :: "env \<Rightarrow> state \<Rightarrow> state \<Rightarrow> string \<Rightarrow> state \<times> event list" where
  "handleCreateTodo env r s newId =
     (let newTodo = \<lparr>item_id = newId, title = '''', completed = False, level = 0,
                     isEmpty = True\<rparr>;
          updatedTodos = activeTodos r @ [newTodo];
          updatedLists = map (\<lambda>list. if list_id list = activeListId r
                                      then list\<lparr>todos := updatedTodos\<rparr> else list) (lists_st r)
      in (s\<lparr>lists_st := updatedLists\<rparr>, syncList env (activeListId r) updatedTodos))"

definition handleUpdateTodo ::
  "env \<Rightarrow> state \<Rightarrow> state \<Rightarrow> string \<Rightarrow> Updates \<Rightarrow> state \<times> event list" where
  "handleUpdateTodo env r s i updates =
     (let updatedTodos = map (\<lambda>todo. if item_id todo = i then spread todo updates else todo)
                             (activeTodos r);
          updatedLists = map (\<lambda>list. if list_id list = activeListId r
                                      then list\<lparr>todos := updatedTodos\<rparr> else list) (lists_st r)
      in (s\<lparr>lists_st := updatedLists\<rparr>, syncList env (activeListId r) updatedTodos))"

definition handleDeleteTodo :: "env \<Rightarrow> state \<Rightarrow> state \<Rightarrow> string \<Rightarrow> state \<times> event list" where
  "handleDeleteTodo env r s i =
     (let updatedTodos = filter (\<lambda>todo. item_id todo \<noteq> i) (activeTodos r);
          updatedLists = map (\<lambda>list. if list_id list = activeListId r
                                      then list\<lparr>todos := updatedTodos\<rparr> else list) (lists_st r)
      in (s\<lparr>lists_st := updatedLists\<rparr>, syncList env (activeListId r) updatedTodos))"

definition handleDuplicateTodo ::
  "env \<Rightarrow> state \<Rightarrow> state \<Rightarrow> string \<Rightarrow> string \<Rightarrow> state \<times> event list" where
  "handleDuplicateTodo env r s i newId =
     (case find (\<lambda>todo. item_id todo = i) (activeTodos r) of
        None \<Rightarrow> (s, [])
      | Some todoToDuplicate \<Rightarrow>
          (let newTodo = todoToDuplicate\<lparr>item_id := newId,
                                         title := title todoToDuplicate @ '' (copy)''\<rparr>;
               updatedTodos = activeTodos r @ [newTodo];
               updatedLists = map (\<lambda>list. if list_id list = activeListId r
                                           then list\<lparr>todos := updatedTodos\<rparr> else list)
                                  (lists_st r)
           in (s\<lparr>lists_st := updatedLists\<rparr>, syncList env (activeListId r) updatedTodos)))"

section \<open>updateListTitle (lines 190-211)\<close>

definition updateListTitle :: "env \<Rightarrow> state \<Rightarrow> state \<Rightarrow> string \<Rightarrow> state \<times> event list" where
  "updateListTitle env r s newTitle =
     (let updatedLists = map (\<lambda>list. if list_id list = activeListId r
                                      then list\<lparr>name := newTitle\<rparr> else list) (lists_st r)
      in (s\<lparr>lists_st := updatedLists\<rparr>,
          if \<not> isSignedIn env \<or> \<not> supabase env then []
          else [UpdateName (activeListId r) newTitle]))"

section \<open>Replies of the remote store\<close>

text \<open>
  A request to the remote store is answered by an object \<open>{ data, error }\<close>. The replies
  the store will give are a list, read in the order the requests are sent; a request sent
  when the list is exhausted is not answered, and the function that awaits it stays
  suspended at that line (\<open>settled = False\<close>). The guard \<open>data && data.length > 0\<close> of
  line 90 treats a null \<open>data\<close> like an empty array: \<open>rows_of\<close>.
\<close>

record reply =
  data :: "TodoList list option"
  error :: bool

definition rows_of :: "reply \<Rightarrow> TodoList list" where
  "rows_of rep = (case data rep of None \<Rightarrow> [] | Some rows \<Rightarrow> rows)"

text \<open>
  The result of running a function: the cells, the trace, the replies not yet read, the
  number of results \<open>uuidv4\<close> has given so far, and whether the function has returned.
\<close>

record result =
  st :: state
  trace :: "event list"
  rest :: "reply list"
  used :: nat
  settled :: bool

section \<open>fetchTodoLists (lines 78-113) and createList (lines 133-163)\<close>

text \<open>
  The two functions call each other, in the closure of one render \<open>r\<close>. Both catch
  every error they raise, so neither ever rejects. The rows of the store carry their
  \<open>user_id\<close> and time stamps along; no function reads them, and they are left out.
\<close>

fun fetchTodoLists :: "env \<Rightarrow> state \<Rightarrow> state \<Rightarrow> reply list \<Rightarrow> nat \<Rightarrow> result"
  and createList :: "env \<Rightarrow> state \<Rightarrow> state \<Rightarrow> TodoList \<Rightarrow> reply list \<Rightarrow> nat \<Rightarrow> result"
where
  "fetchTodoLists env r s [] n =
     (if \<not> supabase env
      then \<lparr>st = s, trace = [], rest = [], used = n, settled = True\<rparr>
      else \<lparr>st = s, trace = [SelectLists (user env)], rest = [], used = n, settled = False\<rparr>)"
| "fetchTodoLists env r s (rep # reps) n =
     (if \<not> supabase env
      then \<lparr>st = s, trace = [], rest = rep # reps, used = n, settled = True\<rparr>
      else if error rep
      then \<lparr>st = s, trace = [SelectLists (user env)], rest = reps, used = n, settled = True\<rparr>
      else
        (case rows_of rep of
           first # others \<Rightarrow>
             (let formattedLists = first # others;
                  s1 = s\<lparr>lists_st := formattedLists\<rparr>;
                  s2 = (if activeListId r = '''' then s1\<lparr>activeListId := list_id first\<rparr>
                        else s1)
              in \<lparr>st = s2\<lparr>isInitialized := True\<rparr>, trace = [SelectLists (user env)],
                  rest = reps, used = n, settled = True\<rparr>)
         | [] \<Rightarrow>
             (let defaultList = \<lparr>list_id = uuidv4 env n, name = ''My Tasks'', todos = []\<rparr>;
                  res = createList env r s defaultList reps (Suc n)
              in if settled res
                 then res\<lparr>st := (st res)\<lparr>lists_st := [defaultList],
                                          activeListId := list_id defaultList,
                                          isInitialized := True\<rparr>,
                          trace := SelectLists (user env) # trace res\<rparr>
                 else res\<lparr>trace := SelectLists (user env) # trace res\<rparr>)))"
| "createList env r s list reps n =
     (if isCreatingList r
      then \<lparr>st = s, trace = [], rest = reps, used = n, settled = True\<rparr>
      else
        (let s1 = s\<lparr>isCreatingList := True\<rparr>
         in if \<not> isSignedIn env
            then \<lparr>st = s1\<lparr>lists_st := lists_st s1 @ [list], activeListId := list_id list,
                           isCreatingList := False\<rparr>,
                  trace = [], rest = reps, used = n, settled = True\<rparr>
            else if supabase env
            then
              (case reps of
                 [] \<Rightarrow> \<lparr>st = s1, trace = [InsertList list (user env)], rest = [], used = n,
                        settled = False\<rparr>
               | rep # reps' \<Rightarrow>
                   if error rep
                   then \<lparr>st = s1\<lparr>isCreatingList := False\<rparr>,
                         trace = [InsertList list (user env)], rest = reps', used = n,
                         settled = True\<rparr>
                   else
                     (let res = fetchTodoLists env r s1 reps' n
                      in if settled res
                         then res\<lparr>st := (st res)\<lparr>activeListId := list_id list,
                                                  isCreatingList := False\<rparr>,
                                  trace := InsertList list (user env) # trace res\<rparr>
                         else res\<lparr>trace := InsertList list (user env) # trace res\<rparr>))
            else \<lparr>st = s1\<lparr>isCreatingList := False\<rparr>, trace = [], rest = reps, used = n,
                  settled = True\<rparr>))"

section \<open>deleteList (lines 165-188)\<close>

text \<open>
  Line 167 filters the collection of \<open>s\<close> (\<open>prev\<close>); line 169 reads \<open>lists[0]\<close> in the
  collection of the closure \<open>r\<close>, which still holds the list being deleted.
\<close>

definition deleteList :: "env \<Rightarrow> state \<Rightarrow> state \<Rightarrow> string \<Rightarrow> reply list \<Rightarrow> nat \<Rightarrow> result" where
  "deleteList env r s i reps n =
     (if \<not> isSignedIn env
      then
        (let s1 = s\<lparr>lists_st := filter (\<lambda>list. list_id list \<noteq> i) (lists_st s)\<rparr>;
             s2 = (if activeListId r = i
                   then s1\<lparr>activeListId :=
                            (case lists_st r of
                               [] \<Rightarrow> ''''
                             | first # others \<Rightarrow>
                                 if list_id first = '''' then '''' else list_id first)\<rparr>
                   else s1)
         in \<lparr>st = s2, trace = [], rest = reps, used = n, settled = True\<rparr>)
      else if \<not> supabase env
      then \<lparr>st = s, trace = [], rest = reps, used = n, settled = True\<rparr>
      else
        (case reps of
           [] \<Rightarrow> \<lparr>st = s, trace = [DeleteRow i], rest = [], used = n, settled = False\<rparr>
         | rep # reps' \<Rightarrow>
             if error rep
             then \<lparr>st = s, trace = [DeleteRow i], rest = reps', used = n, settled = True\<rparr>
             else (let res = fetchTodoLists env r s reps' n
                   in res\<lparr>trace := DeleteRow i # trace res\<rparr>)))"

section \<open>The mount effect (lines 63-76) and handleCreateList (lines 286-295)\<close>

definition initialize :: "env \<Rightarrow> state \<Rightarrow> state \<Rightarrow> reply list \<Rightarrow> nat \<Rightarrow> result" where
  "initialize env r s reps n =
     (if isSignedIn env \<and> user env \<noteq> None \<and> supabase env
      then fetchTodoLists env r s reps n
      else if \<not> isInitialized r
      then
        (let defaultList = \<lparr>list_id = uuidv4 env n, name = ''My Tasks'', todos = []\<rparr>
         in \<lparr>st = s\<lparr>lists_st := [defaultList], activeListId := list_id defaultList,
                      isInitialized := True\<rparr>,
             trace = [], rest = reps, used = Suc n, settled = True\<rparr>)
      else \<lparr>st = s, trace = [], rest = reps, used = n, settled = True\<rparr>)"

definition handleCreateList :: "env \<Rightarrow> state \<Rightarrow> state \<Rightarrow> reply list \<Rightarrow> nat \<Rightarrow> result" where
  "handleCreateList env r s reps n =
     (if isCreatingList r
      then \<lparr>st = s, trace = [], rest = reps, used = n, settled = True\<rparr>
      else createList env r s \<lparr>list_id = uuidv4 env n, name = ''Untitled List'', todos = []\<rparr>
             reps (Suc n))"

section \<open>The operations of the Synchronizer, called from the current render\<close>

text \<open>
  The seven mutations the presentation layer can ask for. A mutation that needs a new id
  carries the result of its call of \<open>uuidv4\<close>. \<open>mutate\<close> runs the handler in the
  closure of the render that shows the current cells (\<open>r = s\<close>).
\<close>

datatype mutation =
    CreateList TodoList
  | DeleteList string
  | UpdateListTitle string
  | CreateTodo string
  | UpdateTodo string Updates
  | DeleteTodo string
  | DuplicateTodo string string

definition returned :: "state \<times> event list \<Rightarrow> reply list \<Rightarrow> nat \<Rightarrow> result" where
  "returned p reps n = \<lparr>st = fst p, trace = snd p, rest = reps, used = n, settled = True\<rparr>"

fun mutate :: "env \<Rightarrow> state \<Rightarrow> mutation \<Rightarrow> reply list \<Rightarrow> nat \<Rightarrow> result" where
  "mutate env s (CreateList list) reps n = createList env s s list reps n"
| "mutate env s (DeleteList i) reps n = deleteList env s s i reps n"
| "mutate env s (UpdateListTitle newTitle) reps n = returned (updateListTitle env s s newTitle) reps n"
| "mutate env s (CreateTodo newId) reps n = returned (handleCreateTodo env s s newId) reps n"
| "mutate env s (UpdateTodo i updates) reps n = returned (handleUpdateTodo env s s i updates) reps n"
| "mutate env s (DeleteTodo i) reps n = returned (handleDeleteTodo env s s i) reps n"
| "mutate env s (DuplicateTodo i newId) reps n = returned (handleDuplicateTodo env s s i newId) reps n"

datatype operation = Initialize | FetchLists | Mutate mutation

fun perform :: "env \<Rightarrow> state \<Rightarrow> operation \<Rightarrow> reply list \<Rightarrow> nat \<Rightarrow> result" where
  "perform env s Initialize reps n = initialize env s s reps n"
| "perform env s FetchLists reps n = fetchTodoLists env s s reps n"
| "perform env s (Mutate m) reps n = mutate env s m reps n"

text \<open>A sequence of mutations, each called from the render that follows the one before.\<close>

fun run :: "env \<Rightarrow> state \<Rightarrow> mutation list \<Rightarrow> reply list \<Rightarrow> nat \<Rightarrow> result" where
  "run env s [] reps n = \<lparr>st = s, trace = [], rest = reps, used = n, settled = True\<rparr>"
| "run env s (m # ms) reps n =
     (let a = mutate env s m reps n;
          b = run env (st a) ms (rest a) (used a)
      in b\<lparr>trace := trace a @ trace b, settled := settled a \<and> settled b\<rparr>)"

text \<open>The mutations that update the active list (spec, section 4.1, edge-case policy).\<close>

fun updates_active_list :: "mutation \<Rightarrow> bool" where
  "updates_active_list (CreateList list) = False"
| "updates_active_list (DeleteList i) = False"
| "updates_active_list m = True"

section \<open>The invariant of the active list id (spec, section 3)\<close>

definition active_ok :: "state \<Rightarrow> bool" where
  "active_ok s = (activeListId s = '''' \<or> activeListId s \<in> list_id ` set (lists_st s))"

section \<open>The local mutations as the specification words them (spec, section 4.1)\<close>

text \<open>
  The collection and the active id, and what each mutation of section 4.1 does to them in
  local mode: \<open>createList\<close> "appends to local state only and activates it";
  \<open>deleteList\<close> "removes from local state; if the deleted list was active, falls back to
  the first remaining list (or none)"; \<open>updateListTitle\<close> "updates the active list's
  name"; \<open>createTodo\<close> "appends a new empty TodoItem (title empty, isEmpty=true, level 0)
  to the active list's sequence"; \<open>updateTodo\<close> "merges the given field changes into the
  matching TodoItem (by id) within the active list"; \<open>deleteTodo\<close> "removes the matching
  TodoItem from the active list's sequence"; \<open>duplicateTodo\<close> "clones the matching
  TodoItem with a new id and a title suffixed with (copy), appended to the end of the
  sequence".

  \<open>spec_merge\<close> is the merge of the specification, written on its own: each field
  change that is given is applied to the item, one after the other.
\<close>

type_synonym view = "TodoList list \<times> string"

definition view_of :: "state \<Rightarrow> view" where
  "view_of s = (lists_st s, activeListId s)"

definition spec_merge :: "TodoItem \<Rightarrow> Updates \<Rightarrow> TodoItem" where
  "spec_merge item changes =
     (let item1 = (case u_id changes of None \<Rightarrow> item | Some v \<Rightarrow> item\<lparr>item_id := v\<rparr>);
          item2 = (case u_title changes of None \<Rightarrow> item1 | Some v \<Rightarrow> item1\<lparr>title := v\<rparr>);
          item3 = (case u_completed changes of None \<Rightarrow> item2
                   | Some v \<Rightarrow> item2\<lparr>completed := v\<rparr>);
          item4 = (case u_level changes of None \<Rightarrow> item3 | Some v \<Rightarrow> item3\<lparr>level := v\<rparr>)
      in (case u_isEmpty changes of None \<Rightarrow> item4 | Some v \<Rightarrow> item4\<lparr>isEmpty := v\<rparr>))"

definition spec_update_active :: "(TodoList \<Rightarrow> TodoList) \<Rightarrow> view \<Rightarrow> view" where
  "spec_update_active f v =
     (map (\<lambda>list. if list_id list = snd v then f list else list) (fst v), snd v)"

fun spec_apply :: "mutation \<Rightarrow> view \<Rightarrow> view" where
  "spec_apply (CreateList list) v = (fst v @ [list], list_id list)"
| "spec_apply (DeleteList i) v =
     (let remaining = filter (\<lambda>list. list_id list \<noteq> i) (fst v)
      in (remaining,
          if snd v = i
          then (case remaining of [] \<Rightarrow> '''' | first # others \<Rightarrow> list_id first)
          else snd v))"
| "spec_apply (UpdateListTitle newTitle) v =
     spec_update_active (\<lambda>list. list\<lparr>name := newTitle\<rparr>) v"
| "spec_apply (CreateTodo newId) v =
     spec_update_active
       (\<lambda>list. list\<lparr>todos := todos list @
          [\<lparr>item_id = newId, title = '''', completed = False, level = 0, isEmpty = True\<rparr>]\<rparr>) v"
| "spec_apply (UpdateTodo i changes) v =
     spec_update_active
       (\<lambda>list. list\<lparr>todos := map (\<lambda>item. if item_id item = i then spec_merge item changes
                                          else item)
                                  (todos list)\<rparr>) v"
| "spec_apply (DeleteTodo i) v =
     spec_update_active
       (\<lambda>list. list\<lparr>todos := filter (\<lambda>todo. item_id todo \<noteq> i) (todos list)\<rparr>) v"
| "spec_apply (DuplicateTodo i newId) v =
     spec_update_active
       (\<lambda>list. case find (\<lambda>todo. item_id todo = i) (todos list) of
                 None \<Rightarrow> list
               | Some todo \<Rightarrow>
                   list\<lparr>todos := todos list @
                     [todo\<lparr>item_id := newId, title := title todo @ '' (copy)''\<rparr>]\<rparr>) v"

fun spec_run :: "view \<Rightarrow> mutation list \<Rightarrow> view" where
  "spec_run v [] = v"
| "spec_run v (m # ms) = spec_run (spec_apply m v) ms"

text \<open>
  The sequences the comparison is made on for a signed-out user: a list is created under
  an id the collection does not hold yet (list ids are unique, spec, section 3), and no
  \<open>deleteList\<close> is aimed at a list that is at once the active list and the first of the
  collection.
\<close>

fun mutation_ok :: "view \<Rightarrow> mutation \<Rightarrow> bool" where
  "mutation_ok v (CreateList list) = (list_id list \<notin> list_id ` set (fst v))"
| "mutation_ok v (DeleteList i) =
     (snd v \<noteq> i \<or> (case fst v of [] \<Rightarrow> True | first # others \<Rightarrow> list_id first \<noteq> i))"
| "mutation_ok v m = True"

fun admissible :: "view \<Rightarrow> mutation list \<Rightarrow> bool" where
  "admissible v [] = True"
| "admissible v (m # ms) = (mutation_ok v m \<and> admissible (spec_apply m v) ms)"

text \<open>
  The same mutations for a user who is signed in while no client exists: \<open>createList\<close>
  and \<open>deleteList\<close> are guarded out (lines 141 and 174) and change nothing; the five
  mutations of the active list are those of section 4.1.
\<close>

fun no_client_apply :: "mutation \<Rightarrow> view \<Rightarrow> view" where
  "no_client_apply (CreateList list) v = v"
| "no_client_apply (DeleteList i) v = v"
| "no_client_apply m v = spec_apply m v"

fun no_client_run :: "view \<Rightarrow> mutation list \<Rightarrow> view" where
  "no_client_run v [] = v"
| "no_client_run v (m # ms) = no_client_run (no_client_apply m v) ms"

section \<open>Properties of the todo handlers\<close>

lemma find_map_active:
  assumes "\<And>l. list_id (f l) = list_id l"
  shows "find (\<lambda>list. list_id list = a) (map (\<lambda>list. if list_id list = a then f list else list) ls)
         = map_option f (find (\<lambda>list. list_id list = a) ls)"
  using assms by (induction ls) auto

lemma activeTodos_set_todos:
  "activeTodos (s\<lparr>lists_st := map (\<lambda>list. if list_id list = activeListId s
                                     then list\<lparr>todos := ts\<rparr> else list) (lists_st s)\<rparr>)
   = (case activeList s of None \<Rightarrow> [] | Some l \<Rightarrow> ts)"
  by (simp add: activeTodos_def activeList_def find_map_active split: option.splits)

lemma activeTodos_nonempty_active:
  "x \<in> set (activeTodos s) \<Longrightarrow> activeList s \<noteq> None"
  by (cases "activeList s") (simp_all add: activeTodos_def)

lemma spread_fields:
  "item_id (spread todo u) = (case u_id u of None \<Rightarrow> item_id todo | Some v \<Rightarrow> v)"
  "title (spread todo u) = (case u_title u of None \<Rightarrow> title todo | Some v \<Rightarrow> v)"
  "completed (spread todo u) = (case u_completed u of None \<Rightarrow> completed todo | Some v \<Rightarrow> v)"
  "level (spread todo u) = (case u_level u of None \<Rightarrow> level todo | Some v \<Rightarrow> v)"
  "isEmpty (spread todo u) = (case u_isEmpty u of None \<Rightarrow> isEmpty todo | Some v \<Rightarrow> v)"
  by (simp_all add: spread_def)

text \<open>
  Claim C3. When the active list holds a todo whose id is \<open>t\<close>, \<open>updateTodo(t, u)\<close>
  leaves a sequence of the same length in which every todo of another id is the todo that
  was there, at the same place, and every todo of the id \<open>t\<close> has, field by field, the
  value \<open>u\<close> gives when \<open>u\<close> holds the field and its old value when it does not. The
  active list id and the other cells are kept. \<open>syncList\<close> is called with the id of the
  active list and the whole updated sequence; for a signed-in user with a client that
  call sends the update of the row, with the same sequence.
\<close>

theorem handleUpdateTodo_merges:
  assumes "t \<in> item_id ` set (activeTodos s)"
  shows "let old = activeTodos s;
             res = handleUpdateTodo env s s t u;
             new = activeTodos (fst res)
         in length new = length old
          \<and> (\<forall>k < length old. item_id (old ! k) \<noteq> t \<longrightarrow> new ! k = old ! k)
          \<and> (\<forall>k < length old. item_id (old ! k) = t \<longrightarrow>
                item_id (new ! k) = (case u_id u of None \<Rightarrow> item_id (old ! k) | Some v \<Rightarrow> v) \<and>
                title (new ! k) = (case u_title u of None \<Rightarrow> title (old ! k) | Some v \<Rightarrow> v) \<and>
                completed (new ! k) =
                  (case u_completed u of None \<Rightarrow> completed (old ! k) | Some v \<Rightarrow> v) \<and>
                level (new ! k) = (case u_level u of None \<Rightarrow> level (old ! k) | Some v \<Rightarrow> v) \<and>
                isEmpty (new ! k) =
                  (case u_isEmpty u of None \<Rightarrow> isEmpty (old ! k) | Some v \<Rightarrow> v))
          \<and> new = map (\<lambda>todo. if item_id todo = t then spread todo u else todo) old
          \<and> lists_st (fst res) =
              map (\<lambda>list. if list_id list = activeListId s then list\<lparr>todos := new\<rparr> else list)
                  (lists_st s)
          \<and> activeListId (fst res) = activeListId s
          \<and> isInitialized (fst res) = isInitialized s
          \<and> isCreatingList (fst res) = isCreatingList s
          \<and> snd res = SyncListCall (activeListId s) new #
                       (if isSignedIn env \<and> supabase env
                        then [UpdateTodos (activeListId s) new] else [])"
proof -
  from assms obtain x where "x \<in> set (activeTodos s)" by auto
  then have "activeList s \<noteq> None" by (rule activeTodos_nonempty_active)
  then show ?thesis
    by (auto simp: handleUpdateTodo_def Let_def activeTodos_set_todos syncList_def spread_fields)
qed

text \<open>
  The scenario of the specification, \<open>updateTodo("t1", {completed: true})\<close>, with a new
  title as well: both fields of t1 take the new values, its level stays, t2 stays.
\<close>

theorem handleUpdateTodo_merges_witness:
  "''t1'' \<in> item_id ` set (activeTodos
      \<lparr>lists_st = [\<lparr>list_id = ''A'', name = ''Work'', todos =
          [\<lparr>item_id = ''t1'', title = ''milk'', completed = False, level = 2, isEmpty = True\<rparr>,
           \<lparr>item_id = ''t2'', title = ''eggs'', completed = False, level = 1, isEmpty = False\<rparr>]\<rparr>],
       activeListId = ''A'', isInitialized = True, isCreatingList = False\<rparr>)
   \<and> handleUpdateTodo \<lparr>isSignedIn = True, user = Some ''u'', supabase = True, uuidv4 = (\<lambda>k. ''x'')\<rparr>
      \<lparr>lists_st = [\<lparr>list_id = ''A'', name = ''Work'', todos =
          [\<lparr>item_id = ''t1'', title = ''milk'', completed = False, level = 2, isEmpty = True\<rparr>,
           \<lparr>item_id = ''t2'', title = ''eggs'', completed = False, level = 1, isEmpty = False\<rparr>]\<rparr>],
       activeListId = ''A'', isInitialized = True, isCreatingList = False\<rparr>
      \<lparr>lists_st = [\<lparr>list_id = ''A'', name = ''Work'', todos =
          [\<lparr>item_id = ''t1'', title = ''milk'', completed = False, level = 2, isEmpty = True\<rparr>,
           \<lparr>item_id = ''t2'', title = ''eggs'', completed = False, level = 1, isEmpty = False\<rparr>]\<rparr>],
       activeListId = ''A'', isInitialized = True, isCreatingList = False\<rparr>
      ''t1''
      \<lparr>u_id = None, u_title = Some ''bread'', u_completed = Some True, u_level = None,
       u_isEmpty = Some False\<rparr>
   = (\<lparr>lists_st = [\<lparr>list_id = ''A'', name = ''Work'', todos =
          [\<lparr>item_id = ''t1'', title = ''bread'', completed = True, level = 2, isEmpty = False\<rparr>,
           \<lparr>item_id = ''t2'', title = ''eggs'', completed = False, level = 1, isEmpty = False\<rparr>]\<rparr>],
       activeListId = ''A'', isInitialized = True, isCreatingList = False\<rparr>,
      [SyncListCall ''A''
          [\<lparr>item_id = ''t1'', title = ''bread'', completed = True, level = 2, isEmpty = False\<rparr>,
           \<lparr>item_id = ''t2'', title = ''eggs'', completed = False, level = 1, isEmpty = False\<rparr>],
       UpdateTodos ''A''
          [\<lparr>item_id = ''t1'', title = ''bread'', completed = True, level = 2, isEmpty = False\<rparr>,
           \<lparr>item_id = ''t2'', title = ''eggs'', completed = False, level = 1, isEmpty = False\<rparr>]])"
  using handleUpdateTodo_merges [of "''t1''"
      "\<lparr>lists_st = [\<lparr>list_id = ''A'', name = ''Work'', todos =
          [\<lparr>item_id = ''t1'', title = ''milk'', completed = False, level = 2, isEmpty = True\<rparr>,
           \<lparr>item_id = ''t2'', title = ''eggs'', completed = False, level = 1, isEmpty = False\<rparr>]\<rparr>],
       activeListId = ''A'', isInitialized = True, isCreatingList = False\<rparr>"
      "\<lparr>isSignedIn = True, user = Some ''u'', supabase = True, uuidv4 = (\<lambda>k. ''x'')\<rparr>"
      "\<lparr>u_id = None, u_title = Some ''bread'', u_completed = Some True, u_level = None,
       u_isEmpty = Some False\<rparr>"]
  by (simp add: handleUpdateTodo_def activeTodos_def activeList_def spread_def syncList_def Let_def)




lemma returned_st: "st (returned p reps n) = fst p"
  by (simp add: returned_def)

lemma frame_map:
  assumes "\<And>l. list_id (f l) = list_id l"
  shows "let new = map (\<lambda>list. if list_id list = a then f list else list) old
         in length new = length old \<and> map list_id new = map list_id old \<and>
            (\<forall>k<length old. list_id (old ! k) \<noteq> a \<longrightarrow> new ! k = old ! k)"
  using assms by (auto simp: Let_def)

lemma mutate_frame:
  assumes "updates_active_list m"
  shows "let old = lists_st s;
             new = lists_st (st (mutate env s m reps n))
         in length new = length old
          \<and> map list_id new = map list_id old
          \<and> (\<forall>k<length old. list_id (old ! k) \<noteq> activeListId s \<longrightarrow> new ! k = old ! k)
          \<and> activeListId (st (mutate env s m reps n)) = activeListId s"
proof (cases m)
  case (CreateList x1)
  with assms show ?thesis by simp
next
  case (DeleteList x2)
  with assms show ?thesis by simp
next
  case (UpdateListTitle x3)
  then show ?thesis
    by (auto simp: returned_st updateListTitle_def Let_def)
next
  case (CreateTodo x4)
  then show ?thesis
    by (auto simp: returned_st handleCreateTodo_def Let_def)
next
  case (UpdateTodo x51 x52)
  then show ?thesis
    by (auto simp: returned_st handleUpdateTodo_def Let_def)
next
  case (DeleteTodo x6)
  then show ?thesis
    by (auto simp: returned_st handleDeleteTodo_def Let_def)
next
  case (DuplicateTodo x71 x72)
  then show ?thesis
    by (auto simp: returned_st handleDuplicateTodo_def Let_def split: option.splits)
qed

text \<open>
  Claim C9. Each of \<open>createTodo\<close>, \<open>updateTodo\<close>, \<open>deleteTodo\<close>, \<open>duplicateTodo\<close>
  and \<open>updateListTitle\<close> yields a collection of the same length, with the same ids in
  the same order, in which every list whose id is not the active list id is the list that
  was there before; the active list id does not change.
\<close>

theorem active_list_updates_frame:
  assumes "updates_active_list m"
  shows "let old = lists_st s;
             new = lists_st (st (mutate env s m reps n))
         in length new = length old
          \<and> map list_id new = map list_id old
          \<and> (\<forall>k<length old. list_id (old ! k) \<noteq> activeListId s \<longrightarrow> new ! k = old ! k)
          \<and> activeListId (st (mutate env s m reps n)) = activeListId s"
  using assms by (rule mutate_frame)

text \<open>
  \<open>createTodo\<close> with the list A active rebuilds A and passes B through.
\<close>

theorem active_list_updates_frame_witness:
  "updates_active_list (CreateTodo ''t9'')
   \<and> lists_st (st (mutate \<lparr>isSignedIn = False, user = None, supabase = False, uuidv4 = (\<lambda>k. ''x'')\<rparr>
      \<lparr>lists_st = [\<lparr>list_id = ''A'', name = ''Work'', todos = []\<rparr>,
                   \<lparr>list_id = ''B'', name = ''Home'', todos =
          [\<lparr>item_id = ''t1'', title = ''milk'', completed = False, level = 0, isEmpty = False\<rparr>]\<rparr>],
       activeListId = ''A'', isInitialized = True, isCreatingList = False\<rparr>
      (CreateTodo ''t9'') [] 0))
   = [\<lparr>list_id = ''A'', name = ''Work'', todos =
          [\<lparr>item_id = ''t9'', title = '''', completed = False, level = 0, isEmpty = True\<rparr>]\<rparr>,
      \<lparr>list_id = ''B'', name = ''Home'', todos =
          [\<lparr>item_id = ''t1'', title = ''milk'', completed = False, level = 0, isEmpty = False\<rparr>]\<rparr>]"
  using active_list_updates_frame [of "CreateTodo ''t9''"
      "\<lparr>lists_st = [\<lparr>list_id = ''A'', name = ''Work'', todos = []\<rparr>,
                   \<lparr>list_id = ''B'', name = ''Home'', todos =
          [\<lparr>item_id = ''t1'', title = ''milk'', completed = False, level = 0, isEmpty = False\<rparr>]\<rparr>],
       activeListId = ''A'', isInitialized = True, isCreatingList = False\<rparr>"
      "\<lparr>isSignedIn = False, user = None, supabase = False, uuidv4 = (\<lambda>k. ''x'')\<rparr>" "[]" 0]
  by (simp add: returned_def handleCreateTodo_def activeTodos_def activeList_def syncList_def Let_def)

text \<open>
  Claim C10. When no todo of the active list bears the id \<open>t\<close>, \<open>duplicateTodo(t)\<close>
  changes no cell and calls nothing, not even \<open>syncList\<close>; \<open>deleteTodo(t)\<close> and
  \<open>updateTodo(t, u)\<close> still call \<open>syncList\<close>, with the sequence as it was.
\<close>

theorem handleDuplicateTodo_unknown_id:
  assumes "find (\<lambda>todo. item_id todo = t) (activeTodos s) = None"
  shows "handleDuplicateTodo env s s t newId = (s, [])
       \<and> snd (handleDeleteTodo env s s t) =
           SyncListCall (activeListId s) (activeTodos s) #
           (if isSignedIn env \<and> supabase env
            then [UpdateTodos (activeListId s) (activeTodos s)] else [])
       \<and> snd (handleUpdateTodo env s s t u) =
           SyncListCall (activeListId s) (activeTodos s) #
           (if isSignedIn env \<and> supabase env
            then [UpdateTodos (activeListId s) (activeTodos s)] else [])"
proof -
  from assms have no: "\<forall>todo \<in> set (activeTodos s). item_id todo \<noteq> t"
    by (auto simp: find_None_iff)
  then have f: "filter (\<lambda>todo. item_id todo \<noteq> t) (activeTodos s) = activeTodos s"
    by (simp add: filter_id_conv)
  from no have m: "map (\<lambda>todo. if item_id todo = t then spread todo u else todo) (activeTodos s)
                   = activeTodos s"
    by (simp add: map_idI)
  show ?thesis
    using assms by (simp add: handleDuplicateTodo_def handleDeleteTodo_def handleUpdateTodo_def
        Let_def syncList_def f m)
qed

text \<open>
  The id zz is unknown to the list A.
\<close>

theorem handleDuplicateTodo_unknown_id_witness:
  "find (\<lambda>todo. item_id todo = ''zz'') (activeTodos
      \<lparr>lists_st = [\<lparr>list_id = ''A'', name = ''Work'', todos =
          [\<lparr>item_id = ''t1'', title = ''milk'', completed = False, level = 0, isEmpty = False\<rparr>]\<rparr>],
       activeListId = ''A'', isInitialized = True, isCreatingList = False\<rparr>) = None
   \<and> handleDuplicateTodo \<lparr>isSignedIn = True, user = Some ''u'', supabase = True, uuidv4 = (\<lambda>k. ''x'')\<rparr>
      \<lparr>lists_st = [\<lparr>list_id = ''A'', name = ''Work'', todos =
          [\<lparr>item_id = ''t1'', title = ''milk'', completed = False, level = 0, isEmpty = False\<rparr>]\<rparr>],
       activeListId = ''A'', isInitialized = True, isCreatingList = False\<rparr>
      \<lparr>lists_st = [\<lparr>list_id = ''A'', name = ''Work'', todos =
          [\<lparr>item_id = ''t1'', title = ''milk'', completed = False, level = 0, isEmpty = False\<rparr>]\<rparr>],
       activeListId = ''A'', isInitialized = True, isCreatingList = False\<rparr>
      ''zz'' ''t3''
   = (\<lparr>lists_st = [\<lparr>list_id = ''A'', name = ''Work'', todos =
          [\<lparr>item_id = ''t1'', title = ''milk'', completed = False, level = 0, isEmpty = False\<rparr>]\<rparr>],
       activeListId = ''A'', isInitialized = True, isCreatingList = False\<rparr>, [])
   \<and> snd (handleDeleteTodo \<lparr>isSignedIn = True, user = Some ''u'', supabase = True, uuidv4 = (\<lambda>k. ''x'')\<rparr>
      \<lparr>lists_st = [\<lparr>list_id = ''A'', name = ''Work'', todos =
          [\<lparr>item_id = ''t1'', title = ''milk'', completed = False, level = 0, isEmpty = False\<rparr>]\<rparr>],
       activeListId = ''A'', isInitialized = True, isCreatingList = False\<rparr>
      \<lparr>lists_st = [\<lparr>list_id = ''A'', name = ''Work'', todos =
          [\<lparr>item_id = ''t1'', title = ''milk'', completed = False, level = 0, isEmpty = False\<rparr>]\<rparr>],
       activeListId = ''A'', isInitialized = True, isCreatingList = False\<rparr>
      ''zz'')
   = [SyncListCall ''A''
        [\<lparr>item_id = ''t1'', title = ''milk'', completed = False, level = 0, isEmpty = False\<rparr>],
      UpdateTodos ''A''
        [\<lparr>item_id = ''t1'', title = ''milk'', completed = False, level = 0, isEmpty = False\<rparr>]]"
  using handleDuplicateTodo_unknown_id [of "''zz''"
      "\<lparr>lists_st = [\<lparr>list_id = ''A'', name = ''Work'', todos =
          [\<lparr>item_id = ''t1'', title = ''milk'', completed = False, level = 0, isEmpty = False\<rparr>]\<rparr>],
       activeListId = ''A'', isInitialized = True, isCreatingList = False\<rparr>"
      "\<lparr>isSignedIn = True, user = Some ''u'', supabase = True, uuidv4 = (\<lambda>k. ''x'')\<rparr>"
      "''t3''"]
  by (simp add: activeTodos_def activeList_def)

text \<open>
  Claim C1, evaluated. Signed out, the lists A and B, A active: \<open>deleteList("A")\<close>
  leaves the collection \<open>[B]\<close> and the active list id A, the id of the list just
  deleted. Line 169 reads \<open>lists[0]\<close> from the collection of the closure, where A is
  still first; the first remaining list is B. With A the only list, the collection
  becomes empty and the active list id stays A.
\<close>

theorem deleteList_active_first:
  "st (deleteList \<lparr>isSignedIn = False, user = None, supabase = False, uuidv4 = (\<lambda>k. ''u'')\<rparr>
         \<lparr>lists_st = [\<lparr>list_id = ''A'', name = ''Work'', todos = []\<rparr>,
                      \<lparr>list_id = ''B'', name = ''Home'', todos = []\<rparr>],
          activeListId = ''A'', isInitialized = True, isCreatingList = False\<rparr>
         \<lparr>lists_st = [\<lparr>list_id = ''A'', name = ''Work'', todos = []\<rparr>,
                      \<lparr>list_id = ''B'', name = ''Home'', todos = []\<rparr>],
          activeListId = ''A'', isInitialized = True, isCreatingList = False\<rparr>
         ''A'' [] 0)
   = \<lparr>lists_st = [\<lparr>list_id = ''B'', name = ''Home'', todos = []\<rparr>],
      activeListId = ''A'', isInitialized = True, isCreatingList = False\<rparr>
   \<and> st (deleteList \<lparr>isSignedIn = False, user = None, supabase = False, uuidv4 = (\<lambda>k. ''u'')\<rparr>
         \<lparr>lists_st = [\<lparr>list_id = ''A'', name = ''Work'', todos = []\<rparr>],
          activeListId = ''A'', isInitialized = True, isCreatingList = False\<rparr>
         \<lparr>lists_st = [\<lparr>list_id = ''A'', name = ''Work'', todos = []\<rparr>],
          activeListId = ''A'', isInitialized = True, isCreatingList = False\<rparr>
         ''A'' [] 0)
   = \<lparr>lists_st = [], activeListId = ''A'', isInitialized = True, isCreatingList = False\<rparr>"
  by (simp add: deleteList_def)

section \<open>Properties of fetchTodoLists and createList\<close>

lemma createList_dropped:
  "isCreatingList r \<Longrightarrow>
   createList env r s list reps n = \<lparr>st = s, trace = [], rest = reps, used = n, settled = True\<rparr>"
  by simp

lemma handleCreateList_dropped:
  "isCreatingList r \<Longrightarrow>
   handleCreateList env r s reps n = \<lparr>st = s, trace = [], rest = reps, used = n, settled = True\<rparr>"
  by (simp add: handleCreateList_def)

lemma createList_local:
  "\<not> isCreatingList r \<Longrightarrow> \<not> isSignedIn env \<Longrightarrow>
   createList env r s list reps n =
     \<lparr>st = s\<lparr>lists_st := lists_st s @ [list], activeListId := list_id list,
              isCreatingList := False\<rparr>,
      trace = [], rest = reps, used = n, settled = True\<rparr>"
  by simp

lemma suspended_rest:
  "\<not> settled (fetchTodoLists env r s reps n) \<longrightarrow> rest (fetchTodoLists env r s reps n) = []"
  "\<not> settled (createList env r s list reps n) \<longrightarrow> rest (createList env r s list reps n) = []"
proof (induction env r s reps n and env r s list reps n rule: fetchTodoLists_createList.induct)
  case (1 env r s n)
  then show ?case by simp
next
  case (2 env r s rep reps n)
  then show ?case
    by (auto simp: Let_def split: list.splits simp del: createList.simps)
next
  case (3 env r s list reps n)
  then show ?case
    by (auto simp: Let_def split: list.splits)
qed

text \<open>
  Claim C6. When the select of \<open>fetchLists\<close>, called from the current render with a
  client, is answered without error by a non-empty result set, the call returns, the
  collection is the result set in the order of the reply, the first row becomes active if
  the active list id was empty and the active list id is kept otherwise, and the select
  is the only request sent.
\<close>

theorem fetchTodoLists_rows:
  assumes "supabase env" and "\<not> error rep" and "rows_of rep = first # others"
  shows "let res = fetchTodoLists env s s (rep # reps) n
         in settled res
          \<and> lists_st (st res) = first # others
          \<and> (activeListId s = '''' \<longrightarrow> activeListId (st res) = list_id first)
          \<and> (activeListId s \<noteq> '''' \<longrightarrow> activeListId (st res) = activeListId s)
          \<and> isInitialized (st res)
          \<and> trace res = [SelectLists (user env)]
          \<and> rest res = reps"
  using assms by (simp add: Let_def)

text \<open>
  The scenario of the specification: the rows A and B, no active list; A becomes active.
\<close>

theorem fetchTodoLists_rows_witness:
  "supabase \<lparr>isSignedIn = True, user = Some ''u'', supabase = True, uuidv4 = (\<lambda>k. ''x'')\<rparr>
   \<and> \<not> error \<lparr>data = Some [\<lparr>list_id = ''A'', name = ''Work'', todos = []\<rparr>,
                              \<lparr>list_id = ''B'', name = ''Home'', todos = []\<rparr>], error = False\<rparr>
   \<and> rows_of \<lparr>data = Some [\<lparr>list_id = ''A'', name = ''Work'', todos = []\<rparr>,
                            \<lparr>list_id = ''B'', name = ''Home'', todos = []\<rparr>], error = False\<rparr>
     = \<lparr>list_id = ''A'', name = ''Work'', todos = []\<rparr> #
       [\<lparr>list_id = ''B'', name = ''Home'', todos = []\<rparr>]
   \<and> st (fetchTodoLists
        \<lparr>isSignedIn = True, user = Some ''u'', supabase = True, uuidv4 = (\<lambda>k. ''x'')\<rparr>
        \<lparr>lists_st = [], activeListId = '''', isInitialized = False, isCreatingList = False\<rparr>
        \<lparr>lists_st = [], activeListId = '''', isInitialized = False, isCreatingList = False\<rparr>
        [\<lparr>data = Some [\<lparr>list_id = ''A'', name = ''Work'', todos = []\<rparr>,
                        \<lparr>list_id = ''B'', name = ''Home'', todos = []\<rparr>], error = False\<rparr>] 0)
     = \<lparr>lists_st = [\<lparr>list_id = ''A'', name = ''Work'', todos = []\<rparr>,
                     \<lparr>list_id = ''B'', name = ''Home'', todos = []\<rparr>],
        activeListId = ''A'', isInitialized = True, isCreatingList = False\<rparr>"
  using fetchTodoLists_rows [of
      "\<lparr>isSignedIn = True, user = Some ''u'', supabase = True, uuidv4 = (\<lambda>k. ''x'')\<rparr>"
      "\<lparr>data = Some [\<lparr>list_id = ''A'', name = ''Work'', todos = []\<rparr>,
                     \<lparr>list_id = ''B'', name = ''Home'', todos = []\<rparr>], error = False\<rparr>"
      "\<lparr>list_id = ''A'', name = ''Work'', todos = []\<rparr>"
      "[\<lparr>list_id = ''B'', name = ''Home'', todos = []\<rparr>]"
      "\<lparr>lists_st = [], activeListId = '''', isInitialized = False, isCreatingList = False\<rparr>"
      "[]" 0]
  by (simp add: rows_of_def Let_def)

text \<open>
  Claim C5, amended. When the select of \<open>fetchLists\<close> is answered without error by an
  empty result set (or by no data), the function builds one list \<open>d\<close> named "My Tasks"
  with no todo and a new id and hands it to \<open>createList\<close>. What follows, case by case,
  with \<open>shown\<close> the cells in which \<open>d\<close> is the whole collection and the active list and
  the component is initialized:
  \<^item> the closure shows a creation in flight: \<open>createList\<close> is dropped, nothing is
    inserted, and the cells are \<open>shown\<close>;
  \<^item> the user is signed out: nothing is sent after the select, and the cells are \<open>shown\<close>;
  \<^item> the user is signed in and the closure shows no creation in flight: the insert of
    \<open>d\<close> is sent. While it is unanswered the call is suspended and the collection is
    untouched. If it fails the call returns with \<open>shown\<close>, \<open>d\<close> not persisted. If it
    succeeds a second select is sent; while it is unanswered the call is suspended; when
    it fails or returns rows the call returns with \<open>shown\<close>, and the requests are
    exactly the select, the insert of \<open>d\<close> and the select.
  Whenever the call returns the cells show \<open>d\<close> alone, active; the call can only stay
  suspended on a request the store has not answered.
\<close>

theorem fetchTodoLists_empty:
  assumes "supabase env" and "\<not> error rep" and "rows_of rep = []"
  shows "let d = \<lparr>list_id = uuidv4 env n, name = ''My Tasks'', todos = []\<rparr>;
             sel = SelectLists (user env);
             ins = InsertList d (user env);
             shown = s\<lparr>lists_st := [d], activeListId := list_id d, isInitialized := True\<rparr>;
             res = fetchTodoLists env r s (rep # reps) n
         in (isCreatingList r \<longrightarrow>
               res = \<lparr>st = shown, trace = [sel], rest = reps, used = Suc n, settled = True\<rparr>)
          \<and> (\<not> isCreatingList r \<and> \<not> isSignedIn env \<longrightarrow>
               res = \<lparr>st = shown\<lparr>isCreatingList := False\<rparr>, trace = [sel], rest = reps,
                      used = Suc n, settled = True\<rparr>)
          \<and> (\<not> isCreatingList r \<and> isSignedIn env \<and> reps = [] \<longrightarrow>
               res = \<lparr>st = s\<lparr>isCreatingList := True\<rparr>, trace = [sel, ins], rest = [],
                      used = Suc n, settled = False\<rparr>)
          \<and> (\<forall>a reps'. \<not> isCreatingList r \<and> isSignedIn env \<and> reps = a # reps' \<and> error a \<longrightarrow>
               res = \<lparr>st = shown\<lparr>isCreatingList := False\<rparr>, trace = [sel, ins], rest = reps',
                      used = Suc n, settled = True\<rparr>)
          \<and> (\<forall>a. \<not> isCreatingList r \<and> isSignedIn env \<and> reps = [a] \<and> \<not> error a \<longrightarrow>
               res = \<lparr>st = s\<lparr>isCreatingList := True\<rparr>, trace = [sel, ins, sel], rest = [],
                      used = Suc n, settled = False\<rparr>)
          \<and> (\<forall>a b reps''. \<not> isCreatingList r \<and> isSignedIn env \<and> reps = a # b # reps'' \<and>
                 \<not> error a \<and> (error b \<or> rows_of b \<noteq> []) \<longrightarrow>
               res = \<lparr>st = shown\<lparr>isCreatingList := False\<rparr>, trace = [sel, ins, sel],
                      rest = reps'', used = Suc n, settled = True\<rparr>)
          \<and> (settled res \<longrightarrow>
                lists_st (st res) = [d] \<and> activeListId (st res) = list_id d \<and>
                isInitialized (st res))
          \<and> (\<not> settled res \<longrightarrow> rest res = [])"
proof -
  let ?d = "\<lparr>list_id = uuidv4 env n, name = ''My Tasks'', todos = []\<rparr>"
  let ?c = "createList env r s ?d reps (Suc n)"
  let ?res = "fetchTodoLists env r s (rep # reps) n"
  have unfold: "?res =
      (if settled ?c
       then ?c\<lparr>st := (st ?c)\<lparr>lists_st := [?d], activeListId := list_id ?d, isInitialized := True\<rparr>,
               trace := SelectLists (user env) # trace ?c\<rparr>
       else ?c\<lparr>trace := SelectLists (user env) # trace ?c\<rparr>)"
    using assms by (simp add: Let_def del: createList.simps)
  have c1: "isCreatingList r \<longrightarrow>
      ?res = \<lparr>st = s\<lparr>lists_st := [?d], activeListId := list_id ?d, isInitialized := True\<rparr>,
              trace = [SelectLists (user env)], rest = reps, used = Suc n, settled = True\<rparr>"
    unfolding unfold by simp
  have c2: "\<not> isCreatingList r \<and> \<not> isSignedIn env \<longrightarrow>
      ?res = \<lparr>st = s\<lparr>lists_st := [?d], activeListId := list_id ?d, isInitialized := True,
                      isCreatingList := False\<rparr>,
              trace = [SelectLists (user env)], rest = reps, used = Suc n, settled = True\<rparr>"
    unfolding unfold by simp
  have c3: "\<not> isCreatingList r \<and> isSignedIn env \<and> reps = [] \<longrightarrow>
      ?res = \<lparr>st = s\<lparr>isCreatingList := True\<rparr>,
              trace = [SelectLists (user env), InsertList ?d (user env)], rest = [],
              used = Suc n, settled = False\<rparr>"
    unfolding unfold using assms(1) by simp
  have c4: "\<forall>a reps'. \<not> isCreatingList r \<and> isSignedIn env \<and> reps = a # reps' \<and> error a \<longrightarrow>
      ?res = \<lparr>st = s\<lparr>lists_st := [?d], activeListId := list_id ?d, isInitialized := True,
                      isCreatingList := False\<rparr>,
              trace = [SelectLists (user env), InsertList ?d (user env)], rest = reps',
              used = Suc n, settled = True\<rparr>"
    unfolding unfold using assms(1) by simp
  have c5: "\<forall>a. \<not> isCreatingList r \<and> isSignedIn env \<and> reps = [a] \<and> \<not> error a \<longrightarrow>
      ?res = \<lparr>st = s\<lparr>isCreatingList := True\<rparr>,
              trace = [SelectLists (user env), InsertList ?d (user env), SelectLists (user env)],
              rest = [], used = Suc n, settled = False\<rparr>"
    unfolding unfold using assms(1) by simp
  have c6: "\<forall>a b reps''. \<not> isCreatingList r \<and> isSignedIn env \<and> reps = a # b # reps'' \<and>
        \<not> error a \<and> (error b \<or> rows_of b \<noteq> []) \<longrightarrow>
      ?res = \<lparr>st = s\<lparr>lists_st := [?d], activeListId := list_id ?d, isInitialized := True,
                      isCreatingList := False\<rparr>,
              trace = [SelectLists (user env), InsertList ?d (user env), SelectLists (user env)],
              rest = reps'', used = Suc n, settled = True\<rparr>"
    unfolding unfold using assms(1) by (auto simp: Let_def split: list.splits)
  have c7: "settled ?res \<longrightarrow>
      lists_st (st ?res) = [?d] \<and> activeListId (st ?res) = list_id ?d \<and> isInitialized (st ?res)"
    unfolding unfold by (simp del: createList.simps)
  have c8: "\<not> settled ?res \<longrightarrow> rest ?res = []"
    by (rule suspended_rest)
  show ?thesis
    unfolding Let_def using c1 c2 c3 c4 c5 c6 c7 c8 by (simp del: createList.simps fetchTodoLists.simps)
qed

text \<open>
  An empty result set, an insert that succeeds, and a second select that returns the row:
  one insert, between the two selects.
\<close>

theorem fetchTodoLists_empty_witness:
  "supabase \<lparr>isSignedIn = True, user = Some ''u'', supabase = True, uuidv4 = (\<lambda>k. ''d'')\<rparr>
   \<and> \<not> error \<lparr>data = Some [], error = False\<rparr>
   \<and> rows_of \<lparr>data = Some [], error = False\<rparr> = []
   \<and> fetchTodoLists
        \<lparr>isSignedIn = True, user = Some ''u'', supabase = True, uuidv4 = (\<lambda>k. ''d'')\<rparr>
        \<lparr>lists_st = [], activeListId = '''', isInitialized = False, isCreatingList = False\<rparr>
        \<lparr>lists_st = [], activeListId = '''', isInitialized = False, isCreatingList = False\<rparr>
        [\<lparr>data = Some [], error = False\<rparr>,
         \<lparr>data = None, error = False\<rparr>,
         \<lparr>data = Some [\<lparr>list_id = ''d'', name = ''My Tasks'', todos = []\<rparr>], error = False\<rparr>] 0
     = \<lparr>st = \<lparr>lists_st = [\<lparr>list_id = ''d'', name = ''My Tasks'', todos = []\<rparr>],
              activeListId = ''d'', isInitialized = True, isCreatingList = False\<rparr>,
        trace = [SelectLists (Some ''u''),
                 InsertList \<lparr>list_id = ''d'', name = ''My Tasks'', todos = []\<rparr> (Some ''u''),
                 SelectLists (Some ''u'')],
        rest = [], used = 1, settled = True\<rparr>"
  using fetchTodoLists_empty [of
      "\<lparr>isSignedIn = True, user = Some ''u'', supabase = True, uuidv4 = (\<lambda>k. ''d'')\<rparr>"
      "\<lparr>data = Some [], error = False\<rparr>" 0
      "\<lparr>lists_st = [], activeListId = '''', isInitialized = False, isCreatingList = False\<rparr>"
      "\<lparr>lists_st = [], activeListId = '''', isInitialized = False, isCreatingList = False\<rparr>"
      "[\<lparr>data = None, error = False\<rparr>,
        \<lparr>data = Some [\<lparr>list_id = ''d'', name = ''My Tasks'', todos = []\<rparr>], error = False\<rparr>]"]
  by (simp add: rows_of_def Let_def)

text \<open>
  Claim C5 as stated fails where the closure shows a creation in flight: the fetch
  receives an empty result set, \<open>createList\<close> is dropped by the guard of line 134, and
  the default list becomes the collection and the active list without any insert. The
  second conjunct reaches that fetch from the screen: \<open>deleteList\<close> of the only list,
  called from a render that shows the creation in flight.
\<close>

theorem fetchTodoLists_default_not_inserted:
  "fetchTodoLists
      \<lparr>isSignedIn = True, user = Some ''u'', supabase = True, uuidv4 = (\<lambda>k. ''d'')\<rparr>
      \<lparr>lists_st = [], activeListId = '''', isInitialized = True, isCreatingList = True\<rparr>
      \<lparr>lists_st = [], activeListId = '''', isInitialized = True, isCreatingList = True\<rparr>
      [\<lparr>data = Some [], error = False\<rparr>] 0
   = \<lparr>st = \<lparr>lists_st = [\<lparr>list_id = ''d'', name = ''My Tasks'', todos = []\<rparr>],
            activeListId = ''d'', isInitialized = True, isCreatingList = True\<rparr>,
      trace = [SelectLists (Some ''u'')], rest = [], used = 1, settled = True\<rparr>
   \<and> deleteList
      \<lparr>isSignedIn = True, user = Some ''u'', supabase = True, uuidv4 = (\<lambda>k. ''d'')\<rparr>
      \<lparr>lists_st = [\<lparr>list_id = ''A'', name = ''Work'', todos = []\<rparr>],
       activeListId = ''A'', isInitialized = True, isCreatingList = True\<rparr>
      \<lparr>lists_st = [\<lparr>list_id = ''A'', name = ''Work'', todos = []\<rparr>],
       activeListId = ''A'', isInitialized = True, isCreatingList = True\<rparr>
      ''A''
      [\<lparr>data = None, error = False\<rparr>, \<lparr>data = Some [], error = False\<rparr>] 0
   = \<lparr>st = \<lparr>lists_st = [\<lparr>list_id = ''d'', name = ''My Tasks'', todos = []\<rparr>],
            activeListId = ''d'', isInitialized = True, isCreatingList = True\<rparr>,
      trace = [DeleteRow ''A'', SelectLists (Some ''u'')], rest = [], used = 1, settled = True\<rparr>"
  by (simp add: deleteList_def rows_of_def Let_def)

text \<open>
  Claim C7, evaluated. \<open>isCreatingList\<close> is a constant of the render, so the guard of
  line 134 reads the value the closure captured, not the cell. First conjunct: a fetch
  receives an empty result set, inserts the default list d0, fetches again in the same
  closure and receives an empty result set again: while the first \<open>createList\<close>
  awaits that fetch, with the cell set, the second \<open>createList\<close> is not dropped and
  inserts d1. Second and third conjuncts: a \<open>createList\<close> whose insert is not yet
  answered, then a second \<open>createList\<close> from the same closure on the cells the first
  one left: it sends a second insert. \<open>createList_dropped\<close> is the case the guard
  covers, a call from a render that shows the cell set.
\<close>

theorem createList_not_single_flight:
  "fetchTodoLists
      \<lparr>isSignedIn = True, user = Some ''u'', supabase = True,
       uuidv4 = (\<lambda>k. if k = 0 then ''d0'' else ''d1'')\<rparr>
      \<lparr>lists_st = [], activeListId = '''', isInitialized = False, isCreatingList = False\<rparr>
      \<lparr>lists_st = [], activeListId = '''', isInitialized = False, isCreatingList = False\<rparr>
      [\<lparr>data = Some [], error = False\<rparr>,
       \<lparr>data = None, error = False\<rparr>,
       \<lparr>data = Some [], error = False\<rparr>] 0
   = \<lparr>st = \<lparr>lists_st = [], activeListId = '''', isInitialized = False, isCreatingList = True\<rparr>,
      trace = [SelectLists (Some ''u''),
               InsertList \<lparr>list_id = ''d0'', name = ''My Tasks'', todos = []\<rparr> (Some ''u''),
               SelectLists (Some ''u''),
               InsertList \<lparr>list_id = ''d1'', name = ''My Tasks'', todos = []\<rparr> (Some ''u'')],
      rest = [], used = 2, settled = False\<rparr>
   \<and> createList
      \<lparr>isSignedIn = True, user = Some ''u'', supabase = True, uuidv4 = (\<lambda>k. ''x'')\<rparr>
      \<lparr>lists_st = [], activeListId = '''', isInitialized = True, isCreatingList = False\<rparr>
      \<lparr>lists_st = [], activeListId = '''', isInitialized = True, isCreatingList = False\<rparr>
      \<lparr>list_id = ''L1'', name = ''Untitled List'', todos = []\<rparr> [] 0
   = \<lparr>st = \<lparr>lists_st = [], activeListId = '''', isInitialized = True, isCreatingList = True\<rparr>,
      trace = [InsertList \<lparr>list_id = ''L1'', name = ''Untitled List'', todos = []\<rparr> (Some ''u'')],
      rest = [], used = 0, settled = False\<rparr>
   \<and> createList
      \<lparr>isSignedIn = True, user = Some ''u'', supabase = True, uuidv4 = (\<lambda>k. ''x'')\<rparr>
      \<lparr>lists_st = [], activeListId = '''', isInitialized = True, isCreatingList = False\<rparr>
      \<lparr>lists_st = [], activeListId = '''', isInitialized = True, isCreatingList = True\<rparr>
      \<lparr>list_id = ''L2'', name = ''Untitled List'', todos = []\<rparr> [] 0
   = \<lparr>st = \<lparr>lists_st = [], activeListId = '''', isInitialized = True, isCreatingList = True\<rparr>,
      trace = [InsertList \<lparr>list_id = ''L2'', name = ''Untitled List'', todos = []\<rparr> (Some ''u'')],
      rest = [], used = 0, settled = False\<rparr>"
  by (simp add: rows_of_def Let_def)

section \<open>The invariant of the active list id\<close>

lemma active_ok_same_ids:
  "map list_id (lists_st s') = map list_id (lists_st s) \<Longrightarrow> activeListId s' = activeListId s \<Longrightarrow>
   active_ok s \<Longrightarrow> active_ok s'"
proof -
  assume a: "map list_id (lists_st s') = map list_id (lists_st s)"
    and b: "activeListId s' = activeListId s" and c: "active_ok s"
  from a have "list_id ` set (lists_st s') = list_id ` set (lists_st s)"
    by (metis set_map)
  with b c show ?thesis by (simp add: active_ok_def)
qed

text \<open>
  The five mutations of the active list keep the ids of the collection and the active
  list id, hence the invariant; so does a \<open>createList\<close> of a signed-out user, which
  activates the list it appends.
\<close>

lemma active_mutation_active_ok:
  assumes "updates_active_list m" and "active_ok s"
  shows "active_ok (st (mutate env s m reps n))"
proof -
  from assms(1)
  have "map list_id (lists_st (st (mutate env s m reps n))) = map list_id (lists_st s)"
    and "activeListId (st (mutate env s m reps n)) = activeListId s"
    using mutate_frame [of m s env reps n] by (simp_all add: Let_def)
  with assms(2) show ?thesis by (rule active_ok_same_ids [rotated 2])
qed

lemma createList_local_active_ok:
  "\<not> isSignedIn env \<Longrightarrow> active_ok s \<Longrightarrow> active_ok (st (mutate env s (CreateList list) reps n))"
  by (auto simp: active_ok_def)

text \<open>
  Claim C2, evaluated. Three operations, each called from the current render on cells
  that satisfy the invariant, leave an active list id that names no list of the
  collection.
  \<^item> A remote \<open>deleteList\<close> of the active list A, of the lists A and B: the row is
    deleted, the fetch that follows returns B alone, and line 96 leaves the active list
    id alone because it is not empty. The local branch of the same function re-selects
    (lines 168-170); the remote branch does not.
  \<^item> The start of a signed-in session: on the first render no client exists yet, so the
    mount effect takes its local branch and activates a default list d; when the client
    arrives the effect runs again and fetches the rows A and B, and line 96 leaves the
    active list id d alone.
  \<^item> A local \<open>deleteList\<close> of the list A, active and first: line 169 re-selects A.
\<close>

theorem active_list_id_dangles:
  "active_ok \<lparr>lists_st = [\<lparr>list_id = ''A'', name = ''Work'', todos = []\<rparr>,
                          \<lparr>list_id = ''B'', name = ''Home'', todos = []\<rparr>],
             activeListId = ''A'', isInitialized = True, isCreatingList = False\<rparr>
   \<and> st (perform \<lparr>isSignedIn = True, user = Some ''u'', supabase = True, uuidv4 = (\<lambda>k. ''d'')\<rparr>
        \<lparr>lists_st = [\<lparr>list_id = ''A'', name = ''Work'', todos = []\<rparr>,
                      \<lparr>list_id = ''B'', name = ''Home'', todos = []\<rparr>],
         activeListId = ''A'', isInitialized = True, isCreatingList = False\<rparr>
        (Mutate (DeleteList ''A''))
        [\<lparr>data = None, error = False\<rparr>,
         \<lparr>data = Some [\<lparr>list_id = ''B'', name = ''Home'', todos = []\<rparr>], error = False\<rparr>] 0)
     = \<lparr>lists_st = [\<lparr>list_id = ''B'', name = ''Home'', todos = []\<rparr>],
        activeListId = ''A'', isInitialized = True, isCreatingList = False\<rparr>
   \<and> \<not> active_ok \<lparr>lists_st = [\<lparr>list_id = ''B'', name = ''Home'', todos = []\<rparr>],
        activeListId = ''A'', isInitialized = True, isCreatingList = False\<rparr>
   \<and> active_ok \<lparr>lists_st = [], activeListId = '''', isInitialized = False, isCreatingList = False\<rparr>
   \<and> st (perform \<lparr>isSignedIn = True, user = Some ''u'', supabase = False, uuidv4 = (\<lambda>k. ''d'')\<rparr>
        \<lparr>lists_st = [], activeListId = '''', isInitialized = False, isCreatingList = False\<rparr>
        Initialize [] 0)
     = \<lparr>lists_st = [\<lparr>list_id = ''d'', name = ''My Tasks'', todos = []\<rparr>],
        activeListId = ''d'', isInitialized = True, isCreatingList = False\<rparr>
   \<and> active_ok \<lparr>lists_st = [\<lparr>list_id = ''d'', name = ''My Tasks'', todos = []\<rparr>],
        activeListId = ''d'', isInitialized = True, isCreatingList = False\<rparr>
   \<and> st (perform \<lparr>isSignedIn = True, user = Some ''u'', supabase = True, uuidv4 = (\<lambda>k. ''d'')\<rparr>
        \<lparr>lists_st = [\<lparr>list_id = ''d'', name = ''My Tasks'', todos = []\<rparr>],
         activeListId = ''d'', isInitialized = True, isCreatingList = False\<rparr>
        Initialize
        [\<lparr>data = Some [\<lparr>list_id = ''A'', name = ''Work'', todos = []\<rparr>,
                        \<lparr>list_id = ''B'', name = ''Home'', todos = []\<rparr>], error = False\<rparr>] 1)
     = \<lparr>lists_st = [\<lparr>list_id = ''A'', name = ''Work'', todos = []\<rparr>,
                     \<lparr>list_id = ''B'', name = ''Home'', todos = []\<rparr>],
        activeListId = ''d'', isInitialized = True, isCreatingList = False\<rparr>
   \<and> \<not> active_ok \<lparr>lists_st = [\<lparr>list_id = ''A'', name = ''Work'', todos = []\<rparr>,
                              \<lparr>list_id = ''B'', name = ''Home'', todos = []\<rparr>],
        activeListId = ''d'', isInitialized = True, isCreatingList = False\<rparr>
   \<and> st (perform \<lparr>isSignedIn = False, user = None, supabase = False, uuidv4 = (\<lambda>k. ''d'')\<rparr>
        \<lparr>lists_st = [\<lparr>list_id = ''A'', name = ''Work'', todos = []\<rparr>,
                      \<lparr>list_id = ''B'', name = ''Home'', todos = []\<rparr>],
         activeListId = ''A'', isInitialized = True, isCreatingList = False\<rparr>
        (Mutate (DeleteList ''A'')) [] 0)
     = \<lparr>lists_st = [\<lparr>list_id = ''B'', name = ''Home'', todos = []\<rparr>],
        activeListId = ''A'', isInitialized = True, isCreatingList = False\<rparr>"
  by (simp add: active_ok_def deleteList_def initialize_def rows_of_def Let_def)

section \<open>Local mode: no remote call, and the mutations of the specification\<close>

lemma remote_calls_append: "remote_calls (a @ b) = remote_calls a @ remote_calls b"
  by (simp add: remote_calls_def)

lemma syncList_local:
  "\<not> isSignedIn env \<or> \<not> supabase env \<Longrightarrow> remote_calls (syncList env listId updatedTodos) = []"
  by (auto simp: remote_calls_def syncList_def)

lemma mutate_local:
  assumes "\<not> isSignedIn env \<or> \<not> supabase env"
  shows "remote_calls (trace (mutate env s m reps n)) = [] \<and> settled (mutate env s m reps n)"
proof (cases m)
  case (CreateList list)
  with assms show ?thesis by (auto simp: remote_calls_def Let_def)
next
  case (DeleteList i)
  with assms show ?thesis by (auto simp: remote_calls_def deleteList_def Let_def)
next
  case (UpdateListTitle newTitle)
  with assms show ?thesis by (auto simp: remote_calls_def returned_def updateListTitle_def Let_def)
next
  case (CreateTodo newId)
  with assms show ?thesis
    by (auto simp: returned_def handleCreateTodo_def Let_def syncList_local)
next
  case (UpdateTodo i updates)
  with assms show ?thesis
    by (auto simp: returned_def handleUpdateTodo_def Let_def syncList_local)
next
  case (DeleteTodo i)
  with assms show ?thesis
    by (auto simp: returned_def handleDeleteTodo_def Let_def syncList_local)
next
  case (DuplicateTodo i newId)
  with assms show ?thesis
    by (auto simp: returned_def handleDuplicateTodo_def Let_def syncList_def remote_calls_def
        split: option.splits)
qed

lemma run_local:
  assumes "\<not> isSignedIn env \<or> \<not> supabase env"
  shows "remote_calls (trace (run env s ms reps n)) = [] \<and> settled (run env s ms reps n)"
proof (induction ms arbitrary: s reps n)
  case Nil
  show ?case by (simp add: remote_calls_def)
next
  case (Cons m ms)
  from assms have "remote_calls (trace (mutate env s m reps n)) = []"
    and "settled (mutate env s m reps n)"
    using mutate_local by blast+
  with Cons show ?case
    by (simp add: Let_def remote_calls_append)
qed

lemma find_distinct_id:
  "distinct (map list_id ls) \<Longrightarrow> l \<in> set ls \<Longrightarrow>
   find (\<lambda>list. list_id list = list_id l) ls = Some l"
  by (induction ls) (auto simp: image_iff)

lemma map_active_distinct:
  assumes "distinct (map list_id (lists_st s))"
  shows "map (\<lambda>list. if list_id list = activeListId s then list\<lparr>todos := g (activeTodos s)\<rparr> else list)
             (lists_st s)
         = map (\<lambda>list. if list_id list = activeListId s then list\<lparr>todos := g (todos list)\<rparr> else list)
             (lists_st s)"
proof (rule map_cong [OF refl])
  fix l assume l: "l \<in> set (lists_st s)"
  show "(if list_id l = activeListId s then l\<lparr>todos := g (activeTodos s)\<rparr> else l)
      = (if list_id l = activeListId s then l\<lparr>todos := g (todos l)\<rparr> else l)"
  proof (cases "list_id l = activeListId s")
    case True
    with assms l have "activeList s = Some l"
      using find_distinct_id [of "lists_st s" l] by (simp add: activeList_def)
    then show ?thesis by (simp add: activeTodos_def)
  next
    case False
    then show ?thesis by simp
  qed
qed

lemma spread_spec_merge: "spread todo u = spec_merge todo u"
  by (simp add: spread_def spec_merge_def Let_def split: option.splits)

lemma active_mutation_refines:
  assumes "updates_active_list m" and "distinct (map list_id (lists_st s))"
  shows "view_of (st (mutate env s m reps n)) = spec_apply m (view_of s)
       \<and> isCreatingList (st (mutate env s m reps n)) = isCreatingList s
       \<and> distinct (map list_id (lists_st (st (mutate env s m reps n))))"
proof (cases m)
  case (CreateList list)
  with assms(1) show ?thesis by simp
next
  case (DeleteList i)
  with assms(1) show ?thesis by simp
next
  case (UpdateListTitle newTitle)
  with assms(2) show ?thesis
    by (auto simp: view_of_def returned_def updateListTitle_def spec_update_active_def Let_def
        comp_def if_distrib [of list_id] cong: if_cong)
next
  case (CreateTodo newId)
  with assms(2) show ?thesis
    using map_active_distinct [OF assms(2), of "\<lambda>ts. ts @
        [\<lparr>item_id = newId, title = '''', completed = False, level = 0, isEmpty = True\<rparr>]"]
    by (auto simp: view_of_def returned_def handleCreateTodo_def spec_update_active_def Let_def
        comp_def if_distrib [of list_id] cong: if_cong)
next
  case (UpdateTodo i updates)
  with assms(2) show ?thesis
    using map_active_distinct [OF assms(2),
        of "map (\<lambda>todo. if item_id todo = i then spec_merge todo updates else todo)"]
    by (auto simp: view_of_def returned_def handleUpdateTodo_def spec_update_active_def Let_def
        spread_spec_merge comp_def if_distrib [of list_id] cong: if_cong)
next
  case (DeleteTodo i)
  with assms(2) show ?thesis
    using map_active_distinct [OF assms(2), of "filter (\<lambda>todo. item_id todo \<noteq> i)"]
    by (auto simp: view_of_def returned_def handleDeleteTodo_def spec_update_active_def Let_def
        comp_def if_distrib [of list_id] cong: if_cong)
next
  case (DuplicateTodo i newId)
  let ?g = "\<lambda>ts. case find (\<lambda>todo. item_id todo = i) ts of None \<Rightarrow> ts
            | Some todo \<Rightarrow> ts @ [todo\<lparr>item_id := newId, title := title todo @ '' (copy)''\<rparr>]"
  have spec: "spec_apply m (view_of s) =
     (map (\<lambda>list. if list_id list = activeListId s then list\<lparr>todos := ?g (todos list)\<rparr> else list)
          (lists_st s), activeListId s)"
    unfolding DuplicateTodo
    by (auto simp: view_of_def spec_update_active_def split: option.splits)
  have code: "lists_st (st (mutate env s m reps n)) =
     map (\<lambda>list. if list_id list = activeListId s then list\<lparr>todos := ?g (activeTodos s)\<rparr> else list)
          (lists_st s)"
  proof (cases "find (\<lambda>todo. item_id todo = i) (activeTodos s)")
    case None
    then have g: "?g (activeTodos s) = activeTodos s" by simp
    have same: "map (\<lambda>list. if list_id list = activeListId s then list\<lparr>todos := activeTodos s\<rparr>
                           else list) (lists_st s) = lists_st s"
      using map_active_distinct [OF assms(2), of "\<lambda>ts. ts"] by (simp add: map_idI)
    from None have "lists_st (st (mutate env s m reps n)) = lists_st s"
      by (simp add: DuplicateTodo returned_def handleDuplicateTodo_def)
    then show ?thesis unfolding g same .
  next
    case (Some todo)
    then show ?thesis
      by (simp add: DuplicateTodo returned_def handleDuplicateTodo_def Let_def)
  qed
  have rest: "activeListId (st (mutate env s m reps n)) = activeListId s"
    "isCreatingList (st (mutate env s m reps n)) = isCreatingList s"
    by (auto simp: DuplicateTodo returned_def handleDuplicateTodo_def Let_def split: option.splits)
  have ids: "map list_id (lists_st (st (mutate env s m reps n))) = map list_id (lists_st s)"
    unfolding code by (simp add: comp_def if_distrib [of list_id] cong: if_cong)
  from map_active_distinct [OF assms(2), of ?g]
  have fst_eq: "lists_st (st (mutate env s m reps n)) = fst (spec_apply m (view_of s))"
    unfolding code spec by (simp only: fst_conv)
  have snd_eq: "activeListId (st (mutate env s m reps n)) = snd (spec_apply m (view_of s))"
    unfolding spec rest by (simp only: snd_conv)
  have "view_of (st (mutate env s m reps n)) = spec_apply m (view_of s)"
    by (simp add: view_of_def prod_eq_iff fst_eq snd_eq)
  moreover have "distinct (map list_id (lists_st (st (mutate env s m reps n))))"
    by (simp only: ids assms(2))
  ultimately show ?thesis
    using rest(2) by simp
qed

lemma mutate_refines:
  assumes "\<not> isSignedIn env" and "\<not> isCreatingList s"
    and "distinct (map list_id (lists_st s))" and "mutation_ok (view_of s) m"
  shows "view_of (st (mutate env s m reps n)) = spec_apply m (view_of s)
       \<and> \<not> isCreatingList (st (mutate env s m reps n))
       \<and> distinct (map list_id (lists_st (st (mutate env s m reps n))))"
proof (cases "updates_active_list m")
  case True
  with assms(2,3) show ?thesis using active_mutation_refines [of m s env reps n] by simp
next
  case False
  then show ?thesis
  proof (cases m)
    case (CreateList list)
    with assms show ?thesis by (auto simp: view_of_def)
  next
    case (DeleteList i)
    with assms show ?thesis
      by (auto simp: view_of_def deleteList_def Let_def distinct_map_filter split: list.splits)
  qed simp_all
qed

lemma run_refines:
  assumes "\<not> isSignedIn env"
  shows "\<not> isCreatingList s \<Longrightarrow> distinct (map list_id (lists_st s)) \<Longrightarrow>
         admissible (view_of s) ms \<Longrightarrow>
         view_of (st (run env s ms reps n)) = spec_run (view_of s) ms"
proof (induction ms arbitrary: s reps n)
  case Nil
  show ?case by simp
next
  case (Cons m ms)
  let ?a = "mutate env s m reps n"
  from Cons.prems have ok: "mutation_ok (view_of s) m"
    and adm: "admissible (spec_apply m (view_of s)) ms" by simp_all
  from mutate_refines [OF assms Cons.prems(1,2) ok, of reps n]
  have v: "view_of (st ?a) = spec_apply m (view_of s)"
    and f: "\<not> isCreatingList (st ?a)"
    and d: "distinct (map list_id (lists_st (st ?a)))" by blast+
  from adm v have "admissible (view_of (st ?a)) ms" by simp
  from Cons.IH [OF f d this]
  have ih: "view_of (st (run env (st ?a) ms (rest ?a) (used ?a))) = spec_run (view_of (st ?a)) ms" .
  have "st (run env s (m # ms) reps n) = st (run env (st ?a) ms (rest ?a) (used ?a))"
    by (simp add: Let_def)
  with ih v show ?case by simp
qed

lemma no_client_lists:
  assumes "isSignedIn env" and "\<not> supabase env"
  shows "lists_st (st (mutate env s (CreateList list) reps n)) = lists_st s"
    and "lists_st (st (mutate env s (DeleteList i) reps n)) = lists_st s"
  using assms by (simp_all add: deleteList_def Let_def)

lemma mutate_no_client:
  assumes "isSignedIn env" and "\<not> supabase env" and "distinct (map list_id (lists_st s))"
  shows "view_of (st (mutate env s m reps n)) = no_client_apply m (view_of s)
       \<and> distinct (map list_id (lists_st (st (mutate env s m reps n))))"
proof (cases "updates_active_list m")
  case True
  then have "no_client_apply m (view_of s) = spec_apply m (view_of s)"
    by (cases m) simp_all
  with True assms(3) show ?thesis using active_mutation_refines [of m s env reps n] by simp
next
  case False
  then show ?thesis
  proof (cases m)
    case (CreateList list)
    with assms show ?thesis by (auto simp: view_of_def)
  next
    case (DeleteList i)
    with assms show ?thesis by (auto simp: view_of_def deleteList_def)
  qed simp_all
qed

lemma run_no_client:
  assumes "isSignedIn env" and "\<not> supabase env"
  shows "distinct (map list_id (lists_st s)) \<Longrightarrow>
         view_of (st (run env s ms reps n)) = no_client_run (view_of s) ms"
proof (induction ms arbitrary: s reps n)
  case Nil
  show ?case by simp
next
  case (Cons m ms)
  let ?a = "mutate env s m reps n"
  from mutate_no_client [OF assms Cons.prems, of m reps n]
  have v: "view_of (st ?a) = no_client_apply m (view_of s)"
    and d: "distinct (map list_id (lists_st (st ?a)))" by blast+
  from Cons.IH [OF d]
  have ih: "view_of (st (run env (st ?a) ms (rest ?a) (used ?a))) = no_client_run (view_of (st ?a)) ms" .
  have "st (run env s (m # ms) reps n) = st (run env (st ?a) ms (rest ?a) (used ?a))"
    by (simp add: Let_def)
  with ih v show ?case by simp
qed

text \<open>
  Claim C8, amended. For a user who is signed out or has no client, a sequence of
  mutations sends no request to the remote store and every mutation returns;
  \<open>syncList\<close> sends nothing. For a signed-out user, starting with no creation in
  flight and pairwise distinct list ids, an admissible sequence leaves the collection and
  the active list id that the mutations of section 4.1, applied in order, give. For a
  signed-in user without a client, starting with pairwise distinct list ids, every
  sequence leaves the collection and the active list id that the same mutations give
  when \<open>createList\<close> and \<open>deleteList\<close> change nothing, which is what these two do
  there. With pairwise distinct list ids each of the five mutations of the active list
  does what section 4.1 says, whoever the user is.
\<close>

theorem run_local_refines:
  assumes "\<not> isSignedIn env \<or> \<not> supabase env"
  shows "remote_calls (trace (run env s ms reps n)) = []
       \<and> settled (run env s ms reps n)
       \<and> remote_calls (syncList env listId updatedTodos) = []
       \<and> (\<not> isSignedIn env \<and> \<not> isCreatingList s \<and> distinct (map list_id (lists_st s)) \<and>
            admissible (view_of s) ms \<longrightarrow>
            view_of (st (run env s ms reps n)) = spec_run (view_of s) ms)
       \<and> (isSignedIn env \<longrightarrow>
            lists_st (st (mutate env s (CreateList list) reps n)) = lists_st s \<and>
            lists_st (st (mutate env s (DeleteList i) reps n)) = lists_st s)
       \<and> (isSignedIn env \<and> distinct (map list_id (lists_st s)) \<longrightarrow>
            view_of (st (run env s ms reps n)) = no_client_run (view_of s) ms)
       \<and> (updates_active_list m \<and> distinct (map list_id (lists_st s)) \<longrightarrow>
            view_of (st (mutate env s m reps n)) = spec_apply m (view_of s))"
proof -
  have "remote_calls (trace (run env s ms reps n)) = [] \<and> settled (run env s ms reps n)"
    using assms by (rule run_local)
  moreover have "remote_calls (syncList env listId updatedTodos) = []"
    using assms by (rule syncList_local)
  moreover have "\<not> isSignedIn env \<and> \<not> isCreatingList s \<and> distinct (map list_id (lists_st s)) \<and>
            admissible (view_of s) ms \<longrightarrow>
            view_of (st (run env s ms reps n)) = spec_run (view_of s) ms"
    using run_refines by blast
  moreover have "isSignedIn env \<longrightarrow>
            lists_st (st (mutate env s (CreateList list) reps n)) = lists_st s \<and>
            lists_st (st (mutate env s (DeleteList i) reps n)) = lists_st s"
    using assms no_client_lists by blast
  moreover have "isSignedIn env \<and> distinct (map list_id (lists_st s)) \<longrightarrow>
            view_of (st (run env s ms reps n)) = no_client_run (view_of s) ms"
    using assms run_no_client by blast
  moreover have "updates_active_list m \<and> distinct (map list_id (lists_st s)) \<longrightarrow>
            view_of (st (mutate env s m reps n)) = spec_apply m (view_of s)"
    using active_mutation_refines by blast
  ultimately show ?thesis by blast
qed

text \<open>
  Signed out: the list B is created and activated, A is deleted, a todo is created in B
  and given a title.
\<close>

theorem run_local_refines_witness:
  "\<not> isSignedIn \<lparr>isSignedIn = False, user = None, supabase = True, uuidv4 = (\<lambda>k. ''x'')\<rparr>
   \<and> \<not> isCreatingList
        \<lparr>lists_st = [\<lparr>list_id = ''A'', name = ''My Tasks'', todos = []\<rparr>],
         activeListId = ''A'', isInitialized = True, isCreatingList = False\<rparr>
   \<and> distinct (map list_id (lists_st
        \<lparr>lists_st = [\<lparr>list_id = ''A'', name = ''My Tasks'', todos = []\<rparr>],
         activeListId = ''A'', isInitialized = True, isCreatingList = False\<rparr>))
   \<and> admissible (view_of
        \<lparr>lists_st = [\<lparr>list_id = ''A'', name = ''My Tasks'', todos = []\<rparr>],
         activeListId = ''A'', isInitialized = True, isCreatingList = False\<rparr>)
        [CreateList \<lparr>list_id = ''B'', name = ''Untitled List'', todos = []\<rparr>,
         DeleteList ''A'',
         CreateTodo ''t1'',
         UpdateTodo ''t1'' \<lparr>u_id = None, u_title = Some ''milk'', u_completed = None,
                            u_level = None, u_isEmpty = Some False\<rparr>]
   \<and> run \<lparr>isSignedIn = False, user = None, supabase = True, uuidv4 = (\<lambda>k. ''x'')\<rparr>
        \<lparr>lists_st = [\<lparr>list_id = ''A'', name = ''My Tasks'', todos = []\<rparr>],
         activeListId = ''A'', isInitialized = True, isCreatingList = False\<rparr>
        [CreateList \<lparr>list_id = ''B'', name = ''Untitled List'', todos = []\<rparr>,
         DeleteList ''A'',
         CreateTodo ''t1'',
         UpdateTodo ''t1'' \<lparr>u_id = None, u_title = Some ''milk'', u_completed = None,
                            u_level = None, u_isEmpty = Some False\<rparr>] [] 0
     = \<lparr>st = \<lparr>lists_st = [\<lparr>list_id = ''B'', name = ''Untitled List'', todos =
                  [\<lparr>item_id = ''t1'', title = ''milk'', completed = False, level = 0,
                    isEmpty = False\<rparr>]\<rparr>],
              activeListId = ''B'', isInitialized = True, isCreatingList = False\<rparr>,
        trace = [SyncListCall ''B''
                   [\<lparr>item_id = ''t1'', title = '''', completed = False, level = 0,
                     isEmpty = True\<rparr>],
                 SyncListCall ''B''
                   [\<lparr>item_id = ''t1'', title = ''milk'', completed = False, level = 0,
                     isEmpty = False\<rparr>]],
        rest = [], used = 0, settled = True\<rparr>
   \<and> spec_run (view_of
        \<lparr>lists_st = [\<lparr>list_id = ''A'', name = ''My Tasks'', todos = []\<rparr>],
         activeListId = ''A'', isInitialized = True, isCreatingList = False\<rparr>)
        [CreateList \<lparr>list_id = ''B'', name = ''Untitled List'', todos = []\<rparr>,
         DeleteList ''A'',
         CreateTodo ''t1'',
         UpdateTodo ''t1'' \<lparr>u_id = None, u_title = Some ''milk'', u_completed = None,
                            u_level = None, u_isEmpty = Some False\<rparr>]
     = ([\<lparr>list_id = ''B'', name = ''Untitled List'', todos =
           [\<lparr>item_id = ''t1'', title = ''milk'', completed = False, level = 0,
             isEmpty = False\<rparr>]\<rparr>], ''B'')"
  using run_local_refines [of
      "\<lparr>isSignedIn = False, user = None, supabase = True, uuidv4 = (\<lambda>k. ''x'')\<rparr>"
      "\<lparr>lists_st = [\<lparr>list_id = ''A'', name = ''My Tasks'', todos = []\<rparr>],
         activeListId = ''A'', isInitialized = True, isCreatingList = False\<rparr>"
      "[CreateList \<lparr>list_id = ''B'', name = ''Untitled List'', todos = []\<rparr>,
         DeleteList ''A'',
         CreateTodo ''t1'',
         UpdateTodo ''t1'' \<lparr>u_id = None, u_title = Some ''milk'', u_completed = None,
                            u_level = None, u_isEmpty = Some False\<rparr>]" "[]" 0]
  by (simp add: view_of_def Let_def returned_def handleCreateTodo_def handleUpdateTodo_def
      activeTodos_def activeList_def syncList_def deleteList_def spec_update_active_def
      spread_def spec_merge_def)

text \<open>
  Claim C8 as stated fails with no remote client configured: signed in without a client,
  \<open>createList\<close> takes neither branch of lines 138-157, and the collection does not
  receive the list.
\<close>

theorem createList_without_client:
  "\<not> supabase \<lparr>isSignedIn = True, user = Some ''u'', supabase = False, uuidv4 = (\<lambda>k. ''x'')\<rparr>
   \<and> view_of (st (run
        \<lparr>isSignedIn = True, user = Some ''u'', supabase = False, uuidv4 = (\<lambda>k. ''x'')\<rparr>
        \<lparr>lists_st = [], activeListId = '''', isInitialized = True, isCreatingList = False\<rparr>
        [CreateList \<lparr>list_id = ''L'', name = ''Untitled List'', todos = []\<rparr>] [] 0))
     = ([], '''')
   \<and> spec_run
        (view_of \<lparr>lists_st = [], activeListId = '''', isInitialized = True, isCreatingList = False\<rparr>)
        [CreateList \<lparr>list_id = ''L'', name = ''Untitled List'', todos = []\<rparr>]
     = ([\<lparr>list_id = ''L'', name = ''Untitled List'', todos = []\<rparr>], ''L'')
   \<and> view_of (st (run
        \<lparr>isSignedIn = True, user = Some ''u'', supabase = False, uuidv4 = (\<lambda>k. ''x'')\<rparr>
        \<lparr>lists_st = [], activeListId = '''', isInitialized = True, isCreatingList = False\<rparr>
        [CreateList \<lparr>list_id = ''L'', name = ''Untitled List'', todos = []\<rparr>] [] 0))
     \<noteq> spec_run
        (view_of \<lparr>lists_st = [], activeListId = '''', isInitialized = True, isCreatingList = False\<rparr>)
        [CreateList \<lparr>list_id = ''L'', name = ''Untitled List'', todos = []\<rparr>]"
  by (simp add: view_of_def Let_def)

end
